theory Spec2Isabelle
  imports Main
begin

section \<open>The gro binding layer: Wrapper and Block\<close>

text \<open>
  A shallow embedding of \<^verbatim>\<open>gro/core.py\<close>. Python objects that are shared and mutated
  (the Wrapper instances) live in a store indexed by address; every method takes the
  store and returns the updated one. An exception is the left summand of a sum type.
  The widget framework (gradio) is an external collaborator: its state is the record of
  the calls the binding layer makes on it.
\<close>

subsection \<open>Values and errors\<close>

datatype error =
    AttributeError
  | TypeError
  | IndexError
  | NotImplementedError
  | Raised string  \<comment> \<open>an exception raised inside application code, by name\<close>

datatype pyval =
    PyNone
  | PyBool bool
  | PyInt int
  | PyStr string
  | PyFn string  \<comment> \<open>a function of the application, by name\<close>
  | PyCallable string bool
      \<comment> \<open>an instance of a class of the application that defines \<^verbatim>\<open>__call__\<close> (by name) and
        its own truth value (\<^verbatim>\<open>__bool__\<close> or \<^verbatim>\<open>__len__\<close>)\<close>
  | PyList "pyval list"

type_synonym kwargs = "(string \<times> pyval) list"

subsection \<open>The framework's object model\<close>

text \<open>
  Modelled from the spec: the framework's widget types. A widget class has a static
  \<^verbatim>\<open>EVENTS\<close> collection of event names; an instantiated widget carries its class and
  its constructor options, and has one event-binding method per event name of its class.
\<close>

record widget_cls =
  cls_name :: string
  EVENTS :: "string list"

record widget =
  widget_id :: nat
  widget_class :: widget_cls
  widget_kwargs :: kwargs

type_synonym addr = nat

text \<open>
  What a binder may be given under \<^verbatim>\<open>inputs\<close> and \<^verbatim>\<open>outputs\<close>: a reference to a
  Wrapper, a framework widget, a plain value, or a list of such objects.
\<close>

datatype obj =
    WrapperRef addr
  | WidgetRef widget
  | Plain pyval
  | ObjList "obj list"

text \<open>
  A listener spec is the keyword dictionary given to a binder. The keys \<^verbatim>\<open>inputs\<close> and
  \<^verbatim>\<open>outputs\<close>, which wiring reads and rewrites, are the two optional fields (\<open>None\<close>:
  the key is absent; \<open>Some x\<close>: the key is present with the value \<open>x\<close>, whatever it is);
  every other key (the handler \<^verbatim>\<open>fn\<close> and passthrough options) is in \<open>options\<close>.
\<close>

record listener =
  inputs :: "obj option"
  outputs :: "obj option"
  options :: kwargs

text \<open>
  Modelled from the spec: an event-binding call returns a chainable handle with a
  \<^verbatim>\<open>.then\<close> continuation. A registration is made either through a widget's
  event-binding method or through the \<^verbatim>\<open>.then\<close> of an earlier handle; the handle of a
  registration is its position in the framework's list of registrations.
\<close>

datatype handle = Handle nat

datatype event_fn =
    EventMethod widget string  \<comment> \<open>\<^verbatim>\<open>getattr(widget, event)\<close>\<close>
  | Then handle  \<comment> \<open>\<^verbatim>\<open>l.then\<close>\<close>

record registration =
  via :: event_fn
  spec :: listener

text \<open>
  Modelled from the spec: the framework's container (\<^verbatim>\<open>gr.Blocks\<close>), as the record of
  what has been done inside it.
\<close>

record gradio =
  blocks_args :: kwargs  \<comment> \<open>the options of \<^verbatim>\<open>gr.Blocks(**init_args)\<close>\<close>
  created :: "widget list"  \<comment> \<open>widgets instantiated so far\<close>
  bindings :: "registration list"  \<comment> \<open>event registrations, in call order\<close>
  on_load :: "(string \<times> widget list) list"  \<comment> \<open>load handlers registered, with their outputs\<close>
  launched :: "kwargs option"  \<comment> \<open>\<^verbatim>\<open>block.launch(**launch_kwargs)\<close>\<close>

text \<open>Modelled from the spec: widget class constructors accepting keyword options.\<close>

definition construct :: "widget_cls \<Rightarrow> kwargs \<Rightarrow> gradio \<Rightarrow> widget \<times> gradio" where
  "construct c kw fw =
     (let g = \<lparr>widget_id = length (created fw), widget_class = c, widget_kwargs = kw\<rparr>
      in (g, fw\<lparr>created := created fw @ [g]\<rparr>))"

text \<open>
  Modelled from the spec: event-binding methods named after each event name. Looking up
  any other event name on a widget is an attribute error.
\<close>

definition widget_getattr :: "widget \<Rightarrow> string \<Rightarrow> error + event_fn" where
  "widget_getattr g event =
     (if event \<in> set (EVENTS (widget_class g)) then Inr (EventMethod g event)
      else Inl AttributeError)"

text \<open>Modelled from the spec: calling an event-binding method or a \<^verbatim>\<open>.then\<close>.\<close>

definition register :: "event_fn \<Rightarrow> listener \<Rightarrow> gradio \<Rightarrow> handle \<times> gradio" where
  "register f l fw =
     (Handle (length (bindings fw)), fw\<lparr>bindings := bindings fw @ [\<lparr>via = f, spec = l\<rparr>]\<rparr>)"

subsection \<open>Wrapper\<close>

record wrapper =
  gr_object_cls :: widget_cls
  init_kwargs :: kwargs
  listeners :: "(string \<times> listener list) list"  \<comment> \<open>a dict, in insertion order\<close>
  priv_source :: pyval  \<comment> \<open>\<^verbatim>\<open>_source\<close>: None, or whatever \<^verbatim>\<open>source\<close> was given\<close>
  gr_object :: "widget option"  \<comment> \<open>\<open>None\<close>: the attribute has not been assigned yet\<close>

type_synonym heap = "addr \<Rightarrow> wrapper"

text \<open>\<^verbatim>\<open>Wrapper.__init__\<close>: \<^verbatim>\<open>gr_object\<close> is not assigned.\<close>

definition Wrapper_init :: "widget_cls \<Rightarrow> kwargs \<Rightarrow> wrapper" where
  "Wrapper_init c kw =
     \<lparr>gr_object_cls = c, init_kwargs = kw, listeners = [], priv_source = PyNone, gr_object = None\<rparr>"

text \<open>\<^verbatim>\<open>d.setdefault(name, []).append(kwargs)\<close> on a dict kept in insertion order.\<close>

fun setdefault_append :: "string \<Rightarrow> listener \<Rightarrow> (string \<times> listener list) list
    \<Rightarrow> (string \<times> listener list) list" where
  "setdefault_append name l [] = [(name, [l])]"
| "setdefault_append name l ((k, ls) # d) =
     (if k = name then (k, ls @ [l]) # d else (k, ls) # setdefault_append name l d)"

text \<open>\<^verbatim>\<open>d.get(name, [])\<close>: the listener list stored for an event name.\<close>

fun listeners_for :: "(string \<times> listener list) list \<Rightarrow> string \<Rightarrow> listener list" where
  "listeners_for [] name = []"
| "listeners_for ((k, ls) # d) name = (if k = name then ls else listeners_for d name)"

text \<open>
  The closure \<^verbatim>\<open>bind\<close> returned by \<^verbatim>\<open>bind_factory(name)\<close> captures the Wrapper and
  the event name; \<open>bind_closure\<close> is a call of it with keyword arguments.
\<close>

datatype attribute =
    Existing string  \<comment> \<open>found by ordinary lookup on the instance or its class\<close>
  | Binder addr string  \<comment> \<open>the closure made by \<^verbatim>\<open>bind_factory\<close>\<close>

definition bind_factory :: "addr \<Rightarrow> string \<Rightarrow> attribute" where
  "bind_factory self name = Binder self name"

definition bind_closure :: "addr \<Rightarrow> string \<Rightarrow> listener \<Rightarrow> heap \<Rightarrow> heap" where
  "bind_closure self name kw h =
     h(self := (h self)\<lparr>listeners := setdefault_append name kw (listeners (h self))\<rparr>)"

text \<open>\<^verbatim>\<open>Wrapper.__call__\<close>: instantiate the widget and assign \<^verbatim>\<open>gr_object\<close>.\<close>

definition Wrapper_call :: "addr \<Rightarrow> heap \<times> gradio \<Rightarrow> heap \<times> gradio" where
  "Wrapper_call self s =
     (case s of (h, fw) \<Rightarrow>
        (case construct (gr_object_cls (h self)) (init_kwargs (h self)) fw of
           (g, fw') \<Rightarrow> (h(self := (h self)\<lparr>gr_object := Some g\<rparr>), fw')))"

text \<open>
  The names ordinary attribute lookup finds on a Wrapper instance: the attributes assigned
  by \<^verbatim>\<open>__init__\<close> (and \<^verbatim>\<open>gr_object\<close> once \<^verbatim>\<open>__call__\<close> has assigned it), the names
  defined in the class body, and the names every instance inherits from \<^verbatim>\<open>object\<close>.
\<close>

definition object_attrs :: "string list" where
  "object_attrs =
     [''__class__'', ''__delattr__'', ''__dict__'', ''__dir__'', ''__doc__'', ''__eq__'',
      ''__format__'', ''__ge__'', ''__getattribute__'', ''__getstate__'', ''__gt__'',
      ''__hash__'', ''__init_subclass__'', ''__le__'', ''__lt__'', ''__module__'', ''__ne__'',
      ''__new__'', ''__reduce__'', ''__reduce_ex__'', ''__repr__'', ''__setattr__'',
      ''__sizeof__'', ''__str__'', ''__subclasshook__'', ''__weakref__'']"

definition Wrapper_attrs :: "wrapper \<Rightarrow> string list" where
  "Wrapper_attrs w =
     [''gr_object_cls'', ''init_kwargs'', ''listeners'', ''_source'']
     @ (case gr_object w of None \<Rightarrow> [] | Some _ \<Rightarrow> [''gr_object''])
     @ [''__init__'', ''bind_factory'', ''__call__'', ''__getattr__'', ''source'']
     @ object_attrs"

text \<open>
  \<^verbatim>\<open>Wrapper.__getattr__\<close>, the hook Python calls when ordinary lookup has failed.
  \<^verbatim>\<open>super().__getattr__(name)\<close> raises AttributeError: \<^verbatim>\<open>object\<close> has no such method.
\<close>

definition Wrapper_getattr_hook :: "addr \<Rightarrow> string \<Rightarrow> heap \<Rightarrow> error + attribute" where
  "Wrapper_getattr_hook self name h =
     (if name \<in> set (EVENTS (gr_object_cls (h self))) then Inr (bind_factory self name)
      else Inl AttributeError)"

text \<open>Attribute access \<^verbatim>\<open>w.name\<close>: ordinary lookup first, then the hook.\<close>

definition Wrapper_getattr :: "addr \<Rightarrow> string \<Rightarrow> heap \<Rightarrow> error + attribute" where
  "Wrapper_getattr self name h =
     (if name \<in> set (Wrapper_attrs (h self)) then Inr (Existing name)
      else Wrapper_getattr_hook self name h)"

text \<open>\<^verbatim>\<open>Wrapper.source\<close>: the argument is stored as it is, whatever it is.\<close>

definition source :: "addr \<Rightarrow> pyval \<Rightarrow> heap \<Rightarrow> heap" where
  "source self fn h = h(self := (h self)\<lparr>priv_source := fn\<rparr>)"

subsection \<open>Block\<close>

text \<open>
  The value of an attribute of a Block instance, as far as \<^verbatim>\<open>isinstance(inst, Wrapper)\<close>
  tells: a Wrapper (by reference) or anything else.
\<close>

datatype attr_value = is_Wrapper: WrapperInst (the_Wrapper: addr) | OtherValue string

type_synonym state = "heap \<times> gradio"

text \<open>
  \<open>attrs\<close> is the sequence \<^verbatim>\<open>dir(self)\<close> enumerates, each name with the value
  \<^verbatim>\<open>getattr(self, name)\<close>. \<open>layout_override\<close> is the body of \<^verbatim>\<open>layout\<close> in the
  subclass, \<open>None\<close> when the subclass does not define one. \<open>wrapped_instances\<close> and
  \<open>dyn_reloading_instances\<close> are assigned by \<^verbatim>\<open>start\<close>; the methods that read them are
  reached only from \<^verbatim>\<open>start\<close>, after the assignment.
\<close>

record block =
  init_args :: kwargs
  attrs :: "(string \<times> attr_value) list"
  layout_override :: "(state \<Rightarrow> error + state) option"
  wrapped_instances :: "addr list"
  dyn_reloading_instances :: "addr list"

definition Block_init :: "(string \<times> attr_value) list \<Rightarrow> (state \<Rightarrow> error + state) option
    \<Rightarrow> kwargs \<Rightarrow> block" where
  "Block_init class_attrs override kw =
     \<lparr>init_args = kw, attrs = class_attrs, layout_override = override,
      wrapped_instances = [], dyn_reloading_instances = []\<rparr>"

text \<open>\<^verbatim>\<open>Block.layout\<close> of the base class, and the call \<^verbatim>\<open>self.layout()\<close>.\<close>

definition Block_layout :: "state \<Rightarrow> error + state" where
  "Block_layout s = Inl NotImplementedError"

definition layout :: "block \<Rightarrow> state \<Rightarrow> error + state" where
  "layout self s = (case layout_override self of None \<Rightarrow> Block_layout s | Some body \<Rightarrow> body s)"

text \<open>The discovery loop of \<^verbatim>\<open>start\<close>: append each Wrapper-valued attribute.\<close>

fun discover :: "(string \<times> attr_value) list \<Rightarrow> addr list \<Rightarrow> addr list" where
  "discover [] acc = acc"
| "discover ((name, inst) # rest) acc =
     (if is_Wrapper inst then discover rest (acc @ [the_Wrapper inst])
      else discover rest acc)"

definition start_discovery :: "block \<Rightarrow> block" where
  "start_discovery self = self\<lparr>wrapped_instances := discover (attrs self) []\<rparr>"

text \<open>
  The truth value Python gives an object, as \<^verbatim>\<open>if o._source\<close> tests it: None, zero, an
  empty string and an empty list are false, a function is true, and an object that
  defines its truth value has the one it defines.
\<close>

fun truthy :: "pyval \<Rightarrow> bool" where
  "truthy PyNone = False"
| "truthy (PyBool b) = b"
| "truthy (PyInt i) = (i \<noteq> 0)"
| "truthy (PyStr s) = (s \<noteq> [])"
| "truthy (PyFn f) = True"
| "truthy (PyCallable f b) = b"
| "truthy (PyList vs) = (vs \<noteq> [])"

definition start_partition :: "heap \<Rightarrow> block \<Rightarrow> block" where
  "start_partition h self =
     self\<lparr>dyn_reloading_instances :=
       filter (\<lambda>x. truthy (priv_source (h x))) (wrapped_instances self)\<rparr>"

text \<open>
  The attribute access \<^verbatim>\<open>x.gr_object\<close>. On a Wrapper that was never called the attribute
  does not exist: ordinary lookup fails and \<^verbatim>\<open>__getattr__\<close> raises AttributeError, the
  name \<^verbatim>\<open>gr_object\<close> being no event name of the framework (the model takes this for
  every widget class). No other object has an attribute of that name.
\<close>

fun gr_object_of :: "heap \<Rightarrow> obj \<Rightarrow> error + widget" where
  "gr_object_of h (WrapperRef a) =
     (case gr_object (h a) of None \<Rightarrow> Inl AttributeError | Some g \<Rightarrow> Inr g)"
| "gr_object_of h (WidgetRef g) = Inl AttributeError"
| "gr_object_of h (Plain v) = Inl AttributeError"
| "gr_object_of h (ObjList xs) = Inl AttributeError"

text \<open>
  \<^verbatim>\<open>for inp in x\<close>: the members of a list, the characters of a string; any other object
  (None, a number, a function, a single Wrapper or widget) is not iterable, a TypeError.
\<close>

fun iterate :: "obj \<Rightarrow> error + obj list" where
  "iterate (ObjList xs) = Inr xs"
| "iterate (Plain (PyList vs)) = Inr (map Plain vs)"
| "iterate (Plain (PyStr s)) = Inr (map (\<lambda>c. Plain (PyStr [c])) s)"
| "iterate x = Inl TypeError"

text \<open>A list comprehension whose body may raise: the first exception ends it.\<close>

fun traverse :: "('a \<Rightarrow> error + 'b) \<Rightarrow> 'a list \<Rightarrow> error + 'b list" where
  "traverse f [] = Inr []"
| "traverse f (x # xs) =
     (case f x of
        Inl e \<Rightarrow> Inl e
      | Inr y \<Rightarrow> (case traverse f xs of Inl e \<Rightarrow> Inl e | Inr ys \<Rightarrow> Inr (y # ys)))"

text \<open>\<^verbatim>\<open>[inp.gr_object for inp in x]\<close>: a new list of widgets.\<close>

definition resolve :: "heap \<Rightarrow> obj \<Rightarrow> error + obj" where
  "resolve h x =
     (case iterate x of
        Inl e \<Rightarrow> Inl e
      | Inr xs \<Rightarrow>
          (case traverse (gr_object_of h) xs of
             Inl e \<Rightarrow> Inl e
           | Inr gs \<Rightarrow> Inr (ObjList (map WidgetRef gs))))"

text \<open>Lines 63 to 67: rewrite \<^verbatim>\<open>inputs\<close>, then \<^verbatim>\<open>outputs\<close>, of one listener spec.\<close>

definition resolve_inputs :: "heap \<Rightarrow> listener \<Rightarrow> error + listener" where
  "resolve_inputs h l =
     (case inputs l of
        None \<Rightarrow> Inr l
      | Some x \<Rightarrow> (case resolve h x of Inl e \<Rightarrow> Inl e | Inr gs \<Rightarrow> Inr (l\<lparr>inputs := Some gs\<rparr>)))"

definition resolve_outputs :: "heap \<Rightarrow> listener \<Rightarrow> error + listener" where
  "resolve_outputs h l =
     (case outputs l of
        None \<Rightarrow> Inr l
      | Some x \<Rightarrow> (case resolve h x of Inl e \<Rightarrow> Inl e | Inr gs \<Rightarrow> Inr (l\<lparr>outputs := Some gs\<rparr>)))"

definition resolve_listener :: "heap \<Rightarrow> listener \<Rightarrow> error + listener" where
  "resolve_listener h l =
     (case resolve_inputs h l of Inl e \<Rightarrow> Inl e | Inr l1 \<Rightarrow> resolve_outputs h l1)"

text \<open>
  The loop over the listeners of one event (lines 61 to 69). \<open>event_fn\<close> is the loop
  variable of that name: each registration's \<^verbatim>\<open>.then\<close> replaces it. The result is the
  list of rewritten specs and the framework after the registrations.
\<close>

fun wire_listeners :: "heap \<Rightarrow> event_fn \<Rightarrow> listener list \<Rightarrow> gradio
    \<Rightarrow> error + (listener list \<times> gradio)" where
  "wire_listeners h event_fn [] fw = Inr ([], fw)"
| "wire_listeners h event_fn (l # ls) fw =
     (case resolve_listener h l of
        Inl e \<Rightarrow> Inl e
      | Inr l' \<Rightarrow>
          (case register event_fn l' fw of
             (l_handle, fw') \<Rightarrow>
               (case wire_listeners h (Then l_handle) ls fw' of
                  Inl e \<Rightarrow> Inl e
                | Inr (ls', fw'') \<Rightarrow> Inr (l' # ls', fw''))))"

text \<open>One item of \<^verbatim>\<open>inst.listeners.items()\<close> (lines 60 to 69).\<close>

definition wire_event :: "heap \<Rightarrow> addr \<Rightarrow> string \<Rightarrow> listener list \<Rightarrow> gradio
    \<Rightarrow> error + (listener list \<times> gradio)" where
  "wire_event h inst event ls fw =
     (case gr_object_of h (WrapperRef inst) of
        Inl e \<Rightarrow> Inl e
      | Inr g \<Rightarrow>
          (case widget_getattr g event of
             Inl e \<Rightarrow> Inl e
           | Inr event_fn \<Rightarrow> wire_listeners h event_fn ls fw))"

fun wire_events :: "heap \<Rightarrow> addr \<Rightarrow> (string \<times> listener list) list \<Rightarrow> gradio
    \<Rightarrow> error + ((string \<times> listener list) list \<times> gradio)" where
  "wire_events h inst [] fw = Inr ([], fw)"
| "wire_events h inst ((event, ls) # items) fw =
     (case wire_event h inst event ls fw of
        Inl e \<Rightarrow> Inl e
      | Inr (ls', fw') \<Rightarrow>
          (case wire_events h inst items fw' of
             Inl e \<Rightarrow> Inl e
           | Inr (items', fw'') \<Rightarrow> Inr ((event, ls') # items', fw'')))"

text \<open>
  \<^verbatim>\<open>Block._init_listeners\<close>. The specs are rewritten inside the Wrapper's own listener
  dict; wiring reads only \<^verbatim>\<open>gr_object\<close> of other Wrappers, which it never assigns, so
  storing the rewritten dict once per Wrapper gives the store the in-place assignments give.
\<close>

fun init_listeners_loop :: "addr list \<Rightarrow> state \<Rightarrow> error + state" where
  "init_listeners_loop [] s = Inr s"
| "init_listeners_loop (inst # rest) s =
     (case s of (h, fw) \<Rightarrow>
        (case wire_events h inst (listeners (h inst)) fw of
           Inl e \<Rightarrow> Inl e
         | Inr (items', fw') \<Rightarrow>
             init_listeners_loop rest (h(inst := (h inst)\<lparr>listeners := items'\<rparr>), fw')))"

definition init_listeners :: "block \<Rightarrow> state \<Rightarrow> error + state" where
  "init_listeners self s = init_listeners_loop (wrapped_instances self) s"

text \<open>
  Modelled from the spec: the container construction call, the \<^verbatim>\<open>load\<close> registration
  call and the \<^verbatim>\<open>launch\<close> call of the framework.
\<close>

definition Blocks :: "kwargs \<Rightarrow> gradio" where
  "Blocks kw = \<lparr>blocks_args = kw, created = [], bindings = [], on_load = [], launched = None\<rparr>"

definition load :: "string \<Rightarrow> widget list \<Rightarrow> gradio \<Rightarrow> gradio" where
  "load fn outs fw = fw\<lparr>on_load := on_load fw @ [(fn, outs)]\<rparr>"

definition launch :: "kwargs \<Rightarrow> gradio \<Rightarrow> gradio" where
  "launch kw fw = fw\<lparr>launched := Some kw\<rparr>"

text \<open>
  Lines 34 and 35 of \<^verbatim>\<open>start\<close>: the load binding. The handler registered is the
  bound method \<^verbatim>\<open>self._load\<close>.
\<close>

definition bind_load :: "block \<Rightarrow> state \<Rightarrow> error + gradio" where
  "bind_load self s =
     (case s of (h, fw) \<Rightarrow>
        (if dyn_reloading_instances self \<noteq> [] then
           (case traverse (gr_object_of h) (map WrapperRef (dyn_reloading_instances self)) of
              Inl e \<Rightarrow> Inl e
            | Inr outs \<Rightarrow> Inr (load ''_load'' outs fw))
         else Inr fw))"

text \<open>\<^verbatim>\<open>Block.start\<close>.\<close>

definition start :: "block \<Rightarrow> kwargs \<Rightarrow> heap \<Rightarrow> error + (block \<times> state)" where
  "start self0 launch_kwargs h =
     (let self = start_partition h (start_discovery self0);
          block = Blocks (init_args self)
      in case layout self (h, block) of
           Inl e \<Rightarrow> Inl e
         | Inr s1 \<Rightarrow>
             (case init_listeners self s1 of
                Inl e \<Rightarrow> Inl e
              | Inr s2 \<Rightarrow>
                  (case bind_load self s2 of
                     Inl e \<Rightarrow> Inl e
                   | Inr block' \<Rightarrow> Inr (self, (fst s2, launch launch_kwargs block')))))"

text \<open>
  \<^verbatim>\<open>Block._load\<close>. The data sources are functions of the application: \<open>call f w\<close> runs
  the function named \<open>f\<close> in the world \<open>w\<close> and gives its return value and the world
  after, or the name of the exception it raised. The world holds what was printed and
  the application's own state.
\<close>

record 'a world =
  stdout :: "string list"
  app :: 'a

definition print :: "string \<Rightarrow> 'a world \<Rightarrow> 'a world" where
  "print line w = w\<lparr>stdout := stdout w @ [line]\<rparr>"

text \<open>
  The call \<^verbatim>\<open>v()\<close> with no argument: a function or a callable object runs; any other
  value is not callable, a TypeError.
\<close>

fun call_value :: "(string \<Rightarrow> 'a world \<Rightarrow> string + pyval \<times> 'a world) \<Rightarrow> pyval \<Rightarrow> 'a world
    \<Rightarrow> error + (pyval \<times> 'a world)" where
  "call_value call (PyFn f) w = (case call f w of Inl x \<Rightarrow> Inl (Raised x) | Inr r \<Rightarrow> Inr r)"
| "call_value call (PyCallable f b) w =
     (case call f w of Inl x \<Rightarrow> Inl (Raised x) | Inr r \<Rightarrow> Inr r)"
| "call_value call v w = Inl TypeError"

text \<open>\<^verbatim>\<open>[o._source() for o in self.dyn_reloading_instances]\<close>.\<close>

fun call_sources :: "(string \<Rightarrow> 'a world \<Rightarrow> string + pyval \<times> 'a world) \<Rightarrow> heap \<Rightarrow> addr list
    \<Rightarrow> 'a world \<Rightarrow> error + (pyval list \<times> 'a world)" where
  "call_sources call h [] w = Inr ([], w)"
| "call_sources call h (x # xs) w =
     (case call_value call (priv_source (h x)) w of
        Inl e \<Rightarrow> Inl e
      | Inr (v, w1) \<Rightarrow>
          (case call_sources call h xs w1 of
             Inl e \<Rightarrow> Inl e
           | Inr (vs, w2) \<Rightarrow> Inr (v # vs, w2)))"

definition Block_load :: "(string \<Rightarrow> 'a world \<Rightarrow> string + pyval \<times> 'a world) \<Rightarrow> block \<Rightarrow> heap
    \<Rightarrow> 'a world \<Rightarrow> error + (pyval \<times> 'a world)" where
  "Block_load call self h w =
     (case call_sources call h (dyn_reloading_instances self) (print ''Reloading'' w) of
        Inl e \<Rightarrow> Inl e
      | Inr (outs, w') \<Rightarrow>
          (if length outs > 1 then Inr (PyList outs, w')
           else (case outs of [] \<Rightarrow> Inl IndexError | v # _ \<Rightarrow> Inr (v, w'))))"

subsection \<open>The example application\<close>

text \<open>
  \<^verbatim>\<open>examples/todo.py\<close>: three Wrappers (a text box at address 0, a button at 1, a
  markdown display at 2), a data source on the display and two listeners on the button's
  click event. \<^verbatim>\<open>dir\<close> enumerates attribute names in sorted order; the names every
  object inherits, none of them a Wrapper, are left out of \<open>HelloBlock_attrs\<close>.
\<close>

definition Textbox :: widget_cls where
  "Textbox = \<lparr>cls_name = ''Textbox'', EVENTS = [''change'', ''input'', ''select'', ''submit'',
     ''focus'', ''blur'', ''stop'', ''copy'']\<rparr>"

definition Button :: widget_cls where
  "Button = \<lparr>cls_name = ''Button'', EVENTS = [''click'']\<rparr>"

definition Markdown :: widget_cls where
  "Markdown = \<lparr>cls_name = ''Markdown'', EVENTS = [''change'', ''copy'']\<rparr>"

definition todo_textbox :: wrapper where
  "todo_textbox = Wrapper_init Textbox
     [(''show_label'', PyBool False), (''placeholder'', PyStr ''E.g. Buy groceries'')]"

definition add_button :: wrapper where
  "add_button = Wrapper_init Button [(''value'', PyStr ''Add task'')]"

definition tasks_markdown :: wrapper where
  "tasks_markdown = Wrapper_init Markdown []"

definition declared :: heap where
  "declared = (\<lambda>_. tasks_markdown)(0 := todo_textbox, 1 := add_button)"

definition click1 :: listener where
  "click1 = \<lparr>inputs = Some (ObjList [WrapperRef 0]), outputs = Some (ObjList [WrapperRef 2]),
     options = [(''fn'', PyFn ''add_button_click'')]\<rparr>"

definition click2 :: listener where
  "click2 = \<lparr>inputs = None, outputs = Some (ObjList [WrapperRef 0]),
     options = [(''fn'', PyFn ''add_button_click_then''), (''show_progress'', PyStr ''hidden'')]\<rparr>"

text \<open>The store after \<^verbatim>\<open>Application.__init__\<close>.\<close>

definition todo_heap :: heap where
  "todo_heap =
     bind_closure 1 ''click'' click2
       (bind_closure 1 ''click'' click1 (source 2 (PyFn ''get_task_markdown'') declared))"

text \<open>\<^verbatim>\<open>HelloBlock.layout\<close> calls the three Wrappers in this order.\<close>

definition HelloBlock_layout :: "state \<Rightarrow> error + state" where
  "HelloBlock_layout s = Inr (Wrapper_call 2 (Wrapper_call 1 (Wrapper_call 0 s)))"

definition HelloBlock_attrs :: "(string \<times> attr_value) list" where
  "HelloBlock_attrs =
     [(''_init_listeners'', OtherValue ''method''), (''_load'', OtherValue ''method''),
      (''add_button'', WrapperInst 1), (''init_args'', OtherValue ''dict''),
      (''layout'', OtherValue ''method''), (''start'', OtherValue ''method''),
      (''tasks_markdown'', WrapperInst 2), (''todo_textbox'', WrapperInst 0),
      (''wrapped_instances'', OtherValue ''list'')]"

definition HelloBlock :: block where
  "HelloBlock = Block_init HelloBlock_attrs (Some HelloBlock_layout)
     [(''title'', PyStr ''gro Todo App'')]"

text \<open>
  The application state is the task list of \<^verbatim>\<open>Todo\<close>, each task with its
  \<^verbatim>\<open>completed\<close> flag. \<^verbatim>\<open>sep.join(xs)\<close> and \<^verbatim>\<open>Todo.get_task_markdown\<close>:
\<close>

fun join :: "string \<Rightarrow> string list \<Rightarrow> string" where
  "join sep [] = []"
| "join sep [x] = x"
| "join sep (x # y # ys) = x @ sep @ join sep (y # ys)"

definition get_task_markdown :: "(string \<times> bool) list \<Rightarrow> string" where
  "get_task_markdown tasks =
     join [CHR 0x0A] (map (\<lambda>t. ''- '' @ fst t) (filter (\<lambda>t. \<not> snd t) tasks))"

text \<open>
  The functions of the application that can be called with no argument;
  \<^verbatim>\<open>add_button_click\<close> needs one, and a call without it is a TypeError.
\<close>

fun todo_call :: "string \<Rightarrow> (string \<times> bool) list world
    \<Rightarrow> string + pyval \<times> (string \<times> bool) list world" where
  "todo_call f w =
     (if f = ''get_task_markdown'' then Inr (PyStr (get_task_markdown (app w)), w)
      else if f = ''add_button_click_then'' then Inr (PyStr [], w)
      else Inl ''TypeError'')"

definition todo_world :: "(string \<times> bool) list world" where
  "todo_world = \<lparr>stdout = [],
     app = [(''Wake up at 8. (Default task)'', False), (''Buy groceries'', False)]\<rparr>"


text \<open>A widget class that has an event called \<^verbatim>\<open>source\<close>, and a Wrapper of it.\<close>

definition Picker :: widget_cls where
  "Picker = \<lparr>cls_name = ''Picker'', EVENTS = [''change'', ''source'']\<rparr>"

definition picker_heap :: heap where
  "picker_heap = declared(3 := Wrapper_init Picker [])"

text \<open>The state after \<^verbatim>\<open>HelloBlock.layout\<close> has run inside the container.\<close>

definition laid_out :: state where
  "laid_out = Wrapper_call 2 (Wrapper_call 1 (Wrapper_call 0
     (todo_heap, Blocks [(''title'', PyStr ''gro Todo App'')])))"

definition textbox_widget :: widget where
  "textbox_widget = \<lparr>widget_id = 0, widget_class = Textbox,
     widget_kwargs = [(''show_label'', PyBool False), (''placeholder'', PyStr ''E.g. Buy groceries'')]\<rparr>"

definition button_widget :: widget where
  "button_widget = \<lparr>widget_id = 1, widget_class = Button,
     widget_kwargs = [(''value'', PyStr ''Add task'')]\<rparr>"

definition markdown_widget :: widget where
  "markdown_widget = \<lparr>widget_id = 2, widget_class = Markdown, widget_kwargs = []\<rparr>"

definition wired_click1 :: listener where
  "wired_click1 = \<lparr>inputs = Some (ObjList [WidgetRef textbox_widget]),
     outputs = Some (ObjList [WidgetRef markdown_widget]),
     options = [(''fn'', PyFn ''add_button_click'')]\<rparr>"

definition wired_click2 :: listener where
  "wired_click2 = \<lparr>inputs = None, outputs = Some (ObjList [WidgetRef textbox_widget]),
     options = [(''fn'', PyFn ''add_button_click_then''), (''show_progress'', PyStr ''hidden'')]\<rparr>"






text \<open>
  A store whose markdown display has for data source a callable object that is false
  (an instance of a class with \<^verbatim>\<open>__call__\<close> and with \<^verbatim>\<open>__len__\<close> returning 0), the
  button having one listener that does not refer to the display.
\<close>

definition empty_feed_heap :: heap where
  "empty_feed_heap =
     bind_closure 1 ''click'' click2 (source 2 (PyCallable ''EmptyFeed'' False) declared)"



subsection \<open>What wiring does to a listener spec, in the spec's words\<close>

text \<open>
  \<open>is_widget_of h x y\<close>: \<open>x\<close> is a reference to a Wrapper that has been instantiated and
  \<open>y\<close> is its widget. \<open>value_rewritten h x y\<close>: \<open>y\<close> is a list that holds, position by
  position, the widgets of the Wrappers the sequence \<open>x\<close> referred to.
  \<open>rewritten h l l'\<close>: the spec \<open>l'\<close> has the keys of \<open>l\<close>, its \<^verbatim>\<open>inputs\<close> and
  \<^verbatim>\<open>outputs\<close> are rewritten so, and every other key is as in \<open>l\<close>.
  \<open>items_rewritten\<close>: the same event names in the same order, each with its
  specs rewritten one by one.
\<close>

definition is_widget_of :: "heap \<Rightarrow> obj \<Rightarrow> obj \<Rightarrow> bool" where
  "is_widget_of h x y =
     (case x of
        WrapperRef a \<Rightarrow> (case gr_object (h a) of None \<Rightarrow> False | Some g \<Rightarrow> y = WidgetRef g)
      | _ \<Rightarrow> False)"

definition value_rewritten :: "heap \<Rightarrow> obj \<Rightarrow> obj \<Rightarrow> bool" where
  "value_rewritten h x y =
     (case iterate x of
        Inl e \<Rightarrow> False
      | Inr xs \<Rightarrow> (case y of ObjList ys \<Rightarrow> list_all2 (is_widget_of h) xs ys | _ \<Rightarrow> False))"

definition rewritten :: "heap \<Rightarrow> listener \<Rightarrow> listener \<Rightarrow> bool" where
  "rewritten h l l' \<longleftrightarrow>
     rel_option (value_rewritten h) (inputs l) (inputs l') \<and>
     rel_option (value_rewritten h) (outputs l) (outputs l') \<and>
     options l' = options l"

definition items_rewritten :: "heap \<Rightarrow> (string \<times> listener list) list
    \<Rightarrow> (string \<times> listener list) list \<Rightarrow> bool" where
  "items_rewritten h d d' =
     list_all2 (\<lambda>item item'. fst item' = fst item \<and>
       list_all2 (rewritten h) (snd item) (snd item')) d d'"

subsection \<open>The registrations wiring leaves in the container, in the spec's words\<close>

text \<open>
  \<open>chain first n ls\<close>: one registration per spec of \<open>ls\<close>, in order, for a container that
  holds \<open>n\<close> registrations already, so that the \<open>i\<close>-th of them stands at position
  \<open>n + i\<close> and its handle is \<open>Handle (n + i)\<close>. The first is made through \<open>first\<close>, each
  later one through the \<^verbatim>\<open>.then\<close> of the handle of the one just before it.
  \<open>event_chains\<close>: one chain per event of a Wrapper, each starting at the event-binding
  method of the Wrapper's widget. \<open>wired_chains\<close>: the chains of the discovered
  Wrappers, one Wrapper after the other (a Wrapper with no widget has no listener wired).
\<close>

definition chain :: "event_fn \<Rightarrow> nat \<Rightarrow> listener list \<Rightarrow> registration list" where
  "chain first n ls =
     map (\<lambda>i. \<lparr>via = (if i = 0 then first else Then (Handle (n + i - 1))), spec = ls ! i\<rparr>)
       [0..<length ls]"

fun event_chains :: "widget \<Rightarrow> nat \<Rightarrow> (string \<times> listener list) list \<Rightarrow> registration list" where
  "event_chains g n [] = []"
| "event_chains g n ((event, ls) # items) =
     chain (EventMethod g event) n ls @ event_chains g (n + length ls) items"

fun wired_chains :: "heap \<Rightarrow> nat \<Rightarrow> addr list \<Rightarrow> registration list" where
  "wired_chains h n [] = []"
| "wired_chains h n (inst # rest) =
     (case gr_object (h inst) of
        None \<Rightarrow> wired_chains h n rest
      | Some g \<Rightarrow>
          event_chains g n (listeners (h inst))
          @ wired_chains h (n + length (event_chains g n (listeners (h inst)))) rest)"

subsection \<open>Specs that wiring has already rewritten\<close>

text \<open>
  Used in the proofs below: a value that is a list of widgets, a spec whose \<^verbatim>\<open>inputs\<close>
  and \<^verbatim>\<open>outputs\<close> are such values where present, a listener dict of such specs.
\<close>

definition wired_value :: "obj \<Rightarrow> bool" where
  "wired_value x = (\<exists>gs. x = ObjList (map WidgetRef gs))"

definition wired_spec :: "listener \<Rightarrow> bool" where
  "wired_spec l \<longleftrightarrow> (\<forall>x. inputs l = Some x \<longrightarrow> wired_value x) \<and>
     (\<forall>x. outputs l = Some x \<longrightarrow> wired_value x)"

definition wired_items :: "(string \<times> listener list) list \<Rightarrow> bool" where
  "wired_items d = list_all (\<lambda>item. list_all wired_spec (snd item)) d"

section \<open>Properties\<close>

subsection \<open>The example, evaluated\<close>

lemmas example_defs =
  laid_out_def todo_heap_def declared_def todo_textbox_def add_button_def tasks_markdown_def
  Textbox_def Button_def Markdown_def click1_def click2_def Wrapper_init_def Wrapper_call_def
  construct_def Blocks_def source_def bind_closure_def Let_def
  textbox_widget_def button_widget_def markdown_widget_def wired_click1_def wired_click2_def

lemmas block_defs =
  HelloBlock_def HelloBlock_attrs_def Block_init_def start_discovery_def start_partition_def

lemmas wiring_defs =
  wire_event_def widget_getattr_def resolve_listener_def resolve_inputs_def resolve_outputs_def
  resolve_def register_def

lemma todo_discovery:
  "wrapped_instances (start_partition todo_heap (start_discovery HelloBlock)) = [1, 2, 0]"
  "dyn_reloading_instances (start_partition todo_heap (start_discovery HelloBlock)) = [2]"
  by (simp_all add: block_defs example_defs)


lemma init_listeners_example:
  "\<exists>h' fw'. init_listeners (start_partition todo_heap (start_discovery HelloBlock)) laid_out =
     Inr (h', fw') \<and>
     listeners (h' 1) = [(''click'', [wired_click1, wired_click2])] \<and>
     listeners (h' 2) = [] \<and> listeners (h' 0) = [] \<and>
     gr_object (h' 1) = Some button_widget \<and> gr_object (h' 2) = Some markdown_widget \<and>
     gr_object (h' 0) = Some textbox_widget"
  unfolding init_listeners_def todo_discovery
  by (simp add: example_defs wiring_defs)



subsection \<open>Listener wiring\<close>

lemma register_simps:
  "fst (register f l fw) = Handle (length (bindings fw))"
  "bindings (snd (register f l fw)) = bindings fw @ [\<lparr>via = f, spec = l\<rparr>]"
  by (simp_all add: register_def)

lemma chain_Nil: "chain f n [] = []"
  by (simp add: chain_def)

lemma chain_Cons:
  "chain f n (l # ls) = \<lparr>via = f, spec = l\<rparr> # chain (Then (Handle n)) (Suc n) ls"
proof -
  have "chain f n (l # ls) =
      map (\<lambda>i. \<lparr>via = (if i = 0 then f else Then (Handle (n + i - 1))), spec = (l # ls) ! i\<rparr>)
        (0 # map Suc [0..<length ls])"
    by (simp add: chain_def map_Suc_upt upt_conv_Cons del: upt_Suc)
  also have "\<dots> = \<lparr>via = f, spec = l\<rparr> #
      map (\<lambda>i. \<lparr>via = Then (Handle (n + i)), spec = ls ! i\<rparr>) [0..<length ls]"
    by (simp add: comp_def)
  also have "map (\<lambda>i. \<lparr>via = Then (Handle (n + i)), spec = ls ! i\<rparr>) [0..<length ls] =
      chain (Then (Handle n)) (Suc n) ls"
    unfolding chain_def
    by (rule map_cong) (auto simp: gr0_conv_Suc)
  finally show ?thesis .
qed

lemma length_chain: "length (chain f n ls) = length ls"
  by (simp add: chain_def)

lemma wire_listeners_chain:
  "wire_listeners h f ls fw = Inr (ls', fw') \<Longrightarrow>
     bindings fw' = bindings fw @ chain f (length (bindings fw)) ls' \<and> length ls' = length ls"
proof (induction ls arbitrary: f fw ls' fw')
  case Nil
  then show ?case by (simp add: chain_Nil)
next
  case (Cons l ls)
  let ?n = "length (bindings fw)"
  from Cons.prems obtain l1 ls1 where
    w: "wire_listeners h (Then (Handle ?n)) ls (snd (register f l1 fw)) = Inr (ls1, fw')" and
    e: "ls' = l1 # ls1"
    by (auto simp: register_def split: sum.splits prod.splits)
  from Cons.IH [OF w] show ?case
    unfolding e by (simp add: register_simps chain_Cons)
qed

lemma wire_event_chain:
  assumes "wire_event h inst event ls fw = Inr (ls', fw')"
  shows "\<exists>g. gr_object (h inst) = Some g \<and>
           bindings fw' = bindings fw @ chain (EventMethod g event) (length (bindings fw)) ls' \<and>
           length ls' = length ls"
proof -
  from assms obtain g where g: "gr_object (h inst) = Some g"
    and w: "wire_listeners h (EventMethod g event) ls fw = Inr (ls', fw')"
    by (auto simp: wire_event_def widget_getattr_def split: option.splits sum.splits if_splits)
  from wire_listeners_chain [OF w] g show ?thesis by simp
qed

lemma wire_events_Nil: "wire_events h inst [] fw = Inr (d', fw') \<Longrightarrow> d' = [] \<and> fw' = fw"
  by simp

lemma wire_events_chains:
  "wire_events h inst d fw = Inr (d', fw') \<Longrightarrow> gr_object (h inst) = Some g \<Longrightarrow>
     bindings fw' = bindings fw @ event_chains g (length (bindings fw)) d'"
proof (induction d arbitrary: fw d' fw')
  case Nil
  then show ?case by simp
next
  case (Cons item d)
  obtain event ls where item: "item = (event, ls)" by (cases item)
  from Cons.prems(1) obtain ls1 fw1 d1 where
    a: "wire_event h inst event ls fw = Inr (ls1, fw1)" and
    b: "wire_events h inst d fw1 = Inr (d1, fw')" and
    c: "d' = (event, ls1) # d1"
    unfolding item by (auto split: sum.splits prod.splits)
  from wire_event_chain [OF a] Cons.prems(2) have
    a': "bindings fw1 = bindings fw @ chain (EventMethod g event) (length (bindings fw)) ls1"
    by auto
  from Cons.IH [OF b Cons.prems(2)] have
    "bindings fw' = bindings fw1 @ event_chains g (length (bindings fw1)) d1" .
  then show ?case unfolding c a' by (simp add: length_chain)
qed

lemma wire_events_unset_Nil:
  "wire_events h inst d fw = Inr (d', fw') \<Longrightarrow> gr_object (h inst) = None \<Longrightarrow>
     d = [] \<and> d' = [] \<and> fw' = fw"
  by (cases d) (auto simp: wire_event_def split: sum.splits prod.splits)

lemma resolve_wired: "resolve h x = Inr y \<Longrightarrow> wired_value y"
  by (auto simp: resolve_def wired_value_def split: sum.splits)

lemma traverse_widgets:
  "traverse (gr_object_of h) (map WidgetRef gs) = Inr ys \<Longrightarrow> gs = [] \<and> ys = []"
  by (cases gs) auto

lemma resolve_again: "wired_value x \<Longrightarrow> resolve h x = Inr y \<Longrightarrow> y = x"
  by (auto simp: resolve_def wired_value_def split: sum.splits dest: traverse_widgets)

lemma resolve_listener_wired:
  "resolve_listener h l = Inr l' \<Longrightarrow> wired_spec l'"
  by (auto simp: resolve_listener_def resolve_inputs_def resolve_outputs_def wired_spec_def
      split: sum.splits option.splits dest: resolve_wired)

lemma resolve_inputs_again:
  assumes "wired_spec l" "resolve_inputs h l = Inr l'"
  shows "l' = l"
proof (cases "inputs l")
  case None
  with assms(2) show ?thesis by (simp add: resolve_inputs_def)
next
  case (Some x)
  with assms(2) obtain y where y: "resolve h x = Inr y" "l' = l\<lparr>inputs := Some y\<rparr>"
    by (auto simp: resolve_inputs_def split: sum.splits)
  from assms(1) Some have "wired_value x" by (simp add: wired_spec_def)
  from resolve_again [OF this y(1)] y(2) Some show ?thesis by simp
qed

lemma resolve_outputs_again:
  assumes "wired_spec l" "resolve_outputs h l = Inr l'"
  shows "l' = l"
proof (cases "outputs l")
  case None
  with assms(2) show ?thesis by (simp add: resolve_outputs_def)
next
  case (Some x)
  with assms(2) obtain y where y: "resolve h x = Inr y" "l' = l\<lparr>outputs := Some y\<rparr>"
    by (auto simp: resolve_outputs_def split: sum.splits)
  from assms(1) Some have "wired_value x" by (simp add: wired_spec_def)
  from resolve_again [OF this y(1)] y(2) Some show ?thesis by simp
qed

lemma resolve_listener_again:
  assumes "wired_spec l" "resolve_listener h l = Inr l'"
  shows "l' = l"
proof -
  from assms(2) obtain l1 where
    i: "resolve_inputs h l = Inr l1" and o: "resolve_outputs h l1 = Inr l'"
    by (auto simp: resolve_listener_def split: sum.splits)
  from resolve_inputs_again [OF assms(1) i] have "l1 = l" .
  with resolve_outputs_again [OF assms(1)] o show ?thesis by simp
qed

lemma wire_listeners_wired:
  "wire_listeners h f ls fw = Inr (ls', fw') \<Longrightarrow> list_all wired_spec ls'"
  by (induction ls arbitrary: f fw ls' fw')
     (auto split: sum.splits prod.splits dest: resolve_listener_wired)

lemma wire_listeners_again:
  "list_all wired_spec ls \<Longrightarrow> wire_listeners h f ls fw = Inr (ls', fw') \<Longrightarrow> ls' = ls"
  by (induction ls arbitrary: f fw ls' fw')
     (auto split: sum.splits prod.splits dest: resolve_listener_again)

lemma wire_events_wired:
  "wire_events h inst d fw = Inr (d', fw') \<Longrightarrow> wired_items d'"
proof (induction d arbitrary: fw d' fw')
  case Nil
  then show ?case by (simp add: wired_items_def)
next
  case (Cons item d)
  obtain event ls where item: "item = (event, ls)" by (cases item)
  from Cons.prems obtain ls1 fw1 d1 where
    a: "wire_event h inst event ls fw = Inr (ls1, fw1)" and
    b: "wire_events h inst d fw1 = Inr (d1, fw')" and
    c: "d' = (event, ls1) # d1"
    unfolding item by (auto split: sum.splits prod.splits)
  from a have "list_all wired_spec ls1"
    by (auto simp: wire_event_def split: sum.splits dest: wire_listeners_wired)
  with Cons.IH [OF b] show ?case unfolding c by (simp add: wired_items_def)
qed

lemma wire_events_again:
  "wired_items d \<Longrightarrow> wire_events h inst d fw = Inr (d', fw') \<Longrightarrow> d' = d"
proof (induction d arbitrary: fw d' fw')
  case Nil
  then show ?case by simp
next
  case (Cons item d)
  obtain event ls where item: "item = (event, ls)" by (cases item)
  from Cons.prems(2) obtain ls1 fw1 d1 where
    a: "wire_event h inst event ls fw = Inr (ls1, fw1)" and
    b: "wire_events h inst d fw1 = Inr (d1, fw')" and
    c: "d' = (event, ls1) # d1"
    unfolding item by (auto split: sum.splits prod.splits)
  from Cons.prems(1) have w: "list_all wired_spec ls" "wired_items d"
    unfolding item by (simp_all add: wired_items_def)
  from a w(1) have "ls1 = ls"
    by (auto simp: wire_event_def split: sum.splits dest: wire_listeners_again)
  with Cons.IH [OF w(2) b] show ?case unfolding c item by simp
qed

lemma loop_gr_object:
  "init_listeners_loop ws (h, fw) = Inr (h', fw') \<Longrightarrow> gr_object (h' a) = gr_object (h a)"
proof (induction ws arbitrary: h fw)
  case Nil
  then show ?case by simp
next
  case (Cons inst ws)
  from Cons.prems obtain d1 fw1 where
    b: "init_listeners_loop ws (h(inst := (h inst)\<lparr>listeners := d1\<rparr>), fw1) = Inr (h', fw')"
    by (auto split: sum.splits prod.splits)
  from Cons.IH [OF b] show ?case by (simp split: if_splits)
qed

lemma loop_keeps_wired:
  "init_listeners_loop ws (h, fw) = Inr (h', fw') \<Longrightarrow> wired_items (listeners (h a)) \<Longrightarrow>
     listeners (h' a) = listeners (h a)"
proof (induction ws arbitrary: h fw)
  case Nil
  then show ?case by simp
next
  case (Cons inst ws)
  from Cons.prems(1) obtain d1 fw1 where
    a: "wire_events h inst (listeners (h inst)) fw = Inr (d1, fw1)" and
    b: "init_listeners_loop ws (h(inst := (h inst)\<lparr>listeners := d1\<rparr>), fw1) = Inr (h', fw')"
    by (auto split: sum.splits prod.splits)
  let ?h1 = "h(inst := (h inst)\<lparr>listeners := d1\<rparr>)"
  have same: "listeners (?h1 a) = listeners (h a)"
    using wire_events_again [OF _ a] Cons.prems(2) by (cases "a = inst") simp_all
  with Cons.prems(2) have "wired_items (listeners (?h1 a))" by simp
  from Cons.IH [OF b this] same show ?case by simp
qed

lemma loop_chains:
  "init_listeners_loop ws (h, fw) = Inr (h', fw') \<Longrightarrow>
     bindings fw' = bindings fw @ wired_chains h' (length (bindings fw)) ws"
proof (induction ws arbitrary: h fw)
  case Nil
  then show ?case by simp
next
  case (Cons inst ws)
  from Cons.prems obtain d1 fw1 where
    a: "wire_events h inst (listeners (h inst)) fw = Inr (d1, fw1)" and
    b: "init_listeners_loop ws (h(inst := (h inst)\<lparr>listeners := d1\<rparr>), fw1) = Inr (h', fw')"
    by (auto split: sum.splits prod.splits)
  let ?h1 = "h(inst := (h inst)\<lparr>listeners := d1\<rparr>)"
  let ?n = "length (bindings fw)"
  have "wired_items (listeners (?h1 inst))" using wire_events_wired [OF a] by simp
  from loop_keeps_wired [OF b this] have l: "listeners (h' inst) = d1" by simp
  from loop_gr_object [OF b, of inst] have g: "gr_object (h' inst) = gr_object (h inst)" by simp
  from Cons.IH [OF b] have
    ih: "bindings fw' = bindings fw1 @ wired_chains h' (length (bindings fw1)) ws" .
  show ?case
  proof (cases "gr_object (h inst)")
    case None
    from wire_events_unset_Nil [OF a None] have "fw1 = fw" by simp
    with ih g None show ?thesis by simp
  next
    case (Some w)
    from wire_events_chains [OF a Some] have
      "bindings fw1 = bindings fw @ event_chains w ?n d1" .
    with ih g l Some show ?thesis by simp
  qed
qed

lemma traverse_Inr:
  "traverse f xs = Inr ys \<Longrightarrow> list_all2 (\<lambda>x y. f x = Inr y) xs ys"
  by (induction xs arbitrary: ys) (auto split: sum.splits)

lemma gr_object_of_Inr:
  "gr_object_of h x = Inr g \<Longrightarrow> is_widget_of h x (WidgetRef g)"
  by (cases x) (auto simp: is_widget_of_def split: option.splits)

lemma resolve_Inr:
  assumes "resolve h x = Inr y"
  shows "value_rewritten h x y"
proof -
  from assms obtain xs gs where i: "iterate x = Inr xs"
    and t: "traverse (gr_object_of h) xs = Inr gs" and y: "y = ObjList (map WidgetRef gs)"
    by (auto simp: resolve_def split: sum.splits)
  from traverse_Inr [OF t] have "list_all2 (\<lambda>x g. is_widget_of h x (WidgetRef g)) xs gs"
    by (rule list_all2_mono) (rule gr_object_of_Inr)
  then have "list_all2 (is_widget_of h) xs (map WidgetRef gs)" by (simp add: list_all2_map2)
  with i y show ?thesis by (simp add: value_rewritten_def)
qed

lemma resolve_listener_rewritten:
  assumes "resolve_listener h l = Inr l'"
  shows "rewritten h l l'"
proof -
  from assms obtain l1 where i: "resolve_inputs h l = Inr l1" and o: "resolve_outputs h l1 = Inr l'"
    by (auto simp: resolve_listener_def split: sum.splits)
  from i have i1: "rel_option (value_rewritten h) (inputs l) (inputs l1)"
    and i2: "outputs l1 = outputs l" and i3: "options l1 = options l"
    by (auto simp: resolve_inputs_def dest: resolve_Inr split: option.splits sum.splits)
  from o have o1: "rel_option (value_rewritten h) (outputs l1) (outputs l')"
    and o2: "inputs l' = inputs l1" and o3: "options l' = options l1"
    by (auto simp: resolve_outputs_def dest: resolve_Inr split: option.splits sum.splits)
  show ?thesis unfolding rewritten_def using i1 i2 i3 o1 o2 o3 by simp
qed

lemma wire_listeners_rewritten:
  "wire_listeners h f ls fw = Inr (ls', fw') \<Longrightarrow> list_all2 (rewritten h) ls ls'"
  by (induction ls arbitrary: f fw ls' fw')
     (auto split: sum.splits prod.splits dest: resolve_listener_rewritten)

lemma wire_events_rewritten:
  "wire_events h inst d fw = Inr (d', fw') \<Longrightarrow> items_rewritten h d d'"
proof (induction d arbitrary: fw d' fw')
  case Nil
  then show ?case by (simp add: items_rewritten_def)
next
  case (Cons item d)
  obtain event ls where item: "item = (event, ls)" by (cases item)
  from Cons.prems obtain ls1 fw1 d1 where
    a: "wire_event h inst event ls fw = Inr (ls1, fw1)" and
    b: "wire_events h inst d fw1 = Inr (d1, fw')" and
    c: "d' = (event, ls1) # d1"
    unfolding item by (auto split: sum.splits prod.splits)
  from a have "list_all2 (rewritten h) ls ls1"
    by (auto simp: wire_event_def split: sum.splits dest: wire_listeners_rewritten)
  with Cons.IH [OF b] show ?case unfolding item c by (simp add: items_rewritten_def)
qed

lemma is_widget_of_cong:
  "(\<And>a. gr_object (h' a) = gr_object (h a)) \<Longrightarrow> is_widget_of h' = is_widget_of h"
  by (auto simp: is_widget_of_def fun_eq_iff split: obj.splits)

lemma items_rewritten_cong:
  assumes "\<And>a. gr_object (h' a) = gr_object (h a)"
  shows "items_rewritten h' = items_rewritten h"
proof -
  have w: "is_widget_of h' = is_widget_of h" using assms by (rule is_widget_of_cong)
  have "\<And>x y. value_rewritten h' x y = value_rewritten h x y" unfolding value_rewritten_def w ..
  then have v: "value_rewritten h' = value_rewritten h" by (intro ext)
  have "\<And>l l'. rewritten h' l l' = rewritten h l l'" unfolding rewritten_def v ..
  then have r: "rewritten h' = rewritten h" by (intro ext)
  have "\<And>d d'. items_rewritten h' d d' = items_rewritten h d d'" unfolding items_rewritten_def r ..
  then show ?thesis by (intro ext)
qed

lemma value_rewritten_twice:
  assumes "value_rewritten h x y" "value_rewritten h y z"
  shows "value_rewritten h x z"
proof -
  from assms(1) obtain xs ys where x: "iterate x = Inr xs" and y: "y = ObjList ys"
    and xy: "list_all2 (is_widget_of h) xs ys"
    by (auto simp: value_rewritten_def split: sum.splits obj.splits)
  from assms(2) y obtain zs where z: "z = ObjList zs" and yz: "list_all2 (is_widget_of h) ys zs"
    by (auto simp: value_rewritten_def split: obj.splits)
  have "ys = []"
  proof (cases ys)
    case Nil
    then show ?thesis .
  next
    case (Cons y' ys')
    with xy obtain x' where "is_widget_of h x' y'" by (auto simp: list_all2_Cons2)
    moreover from Cons yz obtain z' where "is_widget_of h y' z'" by (auto simp: list_all2_Cons1)
    ultimately show ?thesis by (auto simp: is_widget_of_def split: obj.splits option.splits)
  qed
  with xy yz have "list_all2 (is_widget_of h) xs zs" by simp
  with x z show ?thesis by (simp add: value_rewritten_def)
qed

lemma rel_option_twice:
  assumes "rel_option (value_rewritten h) a b" "rel_option (value_rewritten h) b c"
  shows "rel_option (value_rewritten h) a c"
  using assms by (cases a; cases b; cases c) (auto intro: value_rewritten_twice)

lemma rewritten_twice:
  "rewritten h l l' \<Longrightarrow> rewritten h l' l'' \<Longrightarrow> rewritten h l l''"
  by (auto simp: rewritten_def intro: rel_option_twice)

lemma items_rewritten_twice:
  assumes "items_rewritten h d d'" "items_rewritten h d' d''"
  shows "items_rewritten h d d''"
  using assms unfolding items_rewritten_def
  by (rule list_all2_trans [rotated]) (auto intro: list_all2_trans [rotated] rewritten_twice)

lemma loop_frame:
  "init_listeners_loop ws (h, fw) = Inr (h', fw') \<Longrightarrow> h' a = (h a)\<lparr>listeners := listeners (h' a)\<rparr>"
proof (induction ws arbitrary: h fw)
  case Nil
  then show ?case by simp
next
  case (Cons inst ws)
  from Cons.prems obtain d1 fw1 where
    b: "init_listeners_loop ws (h(inst := (h inst)\<lparr>listeners := d1\<rparr>), fw1) = Inr (h', fw')"
    by (auto split: sum.splits prod.splits)
  from Cons.IH [OF b] show ?case by (cases "a = inst") simp_all
qed

lemma loop_rewrites:
  "init_listeners_loop ws (h, fw) = Inr (h', fw') \<Longrightarrow>
     (\<forall>a. a \<notin> set ws \<longrightarrow> h' a = h a) \<and>
     (\<forall>a \<in> set ws. items_rewritten h (listeners (h a)) (listeners (h' a)))"
proof (induction ws arbitrary: h fw)
  case Nil
  then show ?case by simp
next
  case (Cons inst ws)
  from Cons.prems obtain d1 fw1 where
    a: "wire_events h inst (listeners (h inst)) fw = Inr (d1, fw1)" and
    b: "init_listeners_loop ws (h(inst := (h inst)\<lparr>listeners := d1\<rparr>), fw1) = Inr (h', fw')"
    by (auto split: sum.splits prod.splits)
  let ?h1 = "h(inst := (h inst)\<lparr>listeners := d1\<rparr>)"
  have same: "items_rewritten ?h1 = items_rewritten h"
    by (rule items_rewritten_cong) simp
  from wire_events_rewritten [OF a] have r0: "items_rewritten h (listeners (h inst)) d1" .
  from Cons.IH [OF b] have
    ih1: "\<forall>a. a \<notin> set ws \<longrightarrow> h' a = ?h1 a" and
    ih2: "\<forall>a \<in> set ws. items_rewritten h (listeners (?h1 a)) (listeners (h' a))"
    unfolding same by simp_all
  show ?case
  proof (intro conjI allI impI ballI)
    fix a assume "a \<notin> set (inst # ws)"
    with ih1 show "h' a = h a" by simp
  next
    fix a assume m: "a \<in> set (inst # ws)"
    show "items_rewritten h (listeners (h a)) (listeners (h' a))"
    proof (cases "a = inst")
      case True
      show ?thesis
      proof (cases "inst \<in> set ws")
        case True
        with ih2 have "items_rewritten h (listeners (?h1 inst)) (listeners (h' inst))" by blast
        then have "items_rewritten h d1 (listeners (h' inst))" by simp
        with r0 show ?thesis unfolding \<open>a = inst\<close> by (rule items_rewritten_twice)
      next
        case False
        with ih1 have "h' inst = ?h1 inst" by simp
        with r0 show ?thesis unfolding \<open>a = inst\<close> by simp
      qed
    next
      case False
      with m have "a \<in> set ws" by simp
      with ih2 have "items_rewritten h (listeners (?h1 a)) (listeners (h' a))" by blast
      with False show ?thesis by simp
    qed
  qed
qed

text \<open>
  C1. When \<^verbatim>\<open>_init_listeners\<close> returns, the registrations it has added to the
  container are, for each discovered Wrapper in discovery order and for each event of
  its listener dict in order, one chain: one registration per listener spec of that
  event in declaration order, carrying the spec as wiring has rewritten it, the first
  made through the event-binding method of the Wrapper's own widget and every later one
  through the \<^verbatim>\<open>.then\<close> of the handle returned by the registration just before it.
  Nothing else is registered, and the specs the chains carry are the declared specs of
  that Wrapper, rewritten by wiring (\<open>items_rewritten\<close>). The listeners of one event on
  one widget form a sequential chain, not independent bindings (a Wrapper discovered
  under two attribute names is wired once for each).
\<close>

theorem wiring_registers_chains:
  assumes "init_listeners self (h, fw) = Inr (h', fw')"
  shows "bindings fw' =
           bindings fw @ wired_chains h' (length (bindings fw)) (wrapped_instances self) \<and>
         (\<forall>inst \<in> set (wrapped_instances self).
            items_rewritten h (listeners (h inst)) (listeners (h' inst)))"
proof -
  from assms have l: "init_listeners_loop (wrapped_instances self) (h, fw) = Inr (h', fw')"
    by (simp add: init_listeners_def)
  from loop_chains [OF l] loop_rewrites [OF l] show ?thesis by simp
qed

theorem wiring_registers_chains_witness:
  "(case init_listeners (start_partition todo_heap (start_discovery HelloBlock)) laid_out of
      Inl e \<Rightarrow> False
    | Inr (h', fw') \<Rightarrow>
        bindings fw' =
          [\<lparr>via = EventMethod button_widget ''click'', spec = wired_click1\<rparr>,
           \<lparr>via = Then (Handle 0), spec = wired_click2\<rparr>])"
proof -
  let ?self = "start_partition todo_heap (start_discovery HelloBlock)"
  from init_listeners_example obtain h' fw' where
    e: "init_listeners ?self laid_out = Inr (h', fw')" and
    l: "listeners (h' 1) = [(''click'', [wired_click1, wired_click2])]"
      "listeners (h' 2) = []" "listeners (h' 0) = []" and
    g: "gr_object (h' 1) = Some button_widget" "gr_object (h' 2) = Some markdown_widget"
      "gr_object (h' 0) = Some textbox_widget"
    by blast
  from e have e': "init_listeners ?self (fst laid_out, snd laid_out) = Inr (h', fw')" by simp
  have b: "bindings (snd laid_out) = []" by (simp add: example_defs)
  from wiring_registers_chains [OF e']
  have "bindings fw' = wired_chains h' 0 [1, 2, 0]" by (simp add: b todo_discovery del: ball_simps)
  also have "\<dots> = [\<lparr>via = EventMethod button_widget ''click'', spec = wired_click1\<rparr>,
           \<lparr>via = Then (Handle 0), spec = wired_click2\<rparr>]"
    using l g by (simp add: chain_def upt_rec)
  finally show ?thesis using e by simp
qed

text \<open>
  C10. Wiring rewrites the stored listener specs: when \<^verbatim>\<open>_init_listeners\<close> returns,
  every discovered Wrapper has the same event names with the same number of specs, and
  in each spec that had an \<^verbatim>\<open>inputs\<close> or \<^verbatim>\<open>outputs\<close> key the Wrapper references
  are replaced, position by position, by the widgets those Wrappers were instantiated
  with, so that no Wrapper reference is left there; every other key of the spec is
  unchanged, and wiring changes nothing of a Wrapper but its listener dict. This holds
  also when a Wrapper is discovered under two attribute names.
\<close>

theorem wiring_rewrites_listeners_in_place:
  assumes "init_listeners self (h, fw) = Inr (h', fw')"
  shows "(\<forall>inst \<in> set (wrapped_instances self).
            items_rewritten h (listeners (h inst)) (listeners (h' inst))) \<and>
         (\<forall>a. h' a = (h a)\<lparr>listeners := listeners (h' a)\<rparr>)"
proof -
  from assms have l: "init_listeners_loop (wrapped_instances self) (h, fw) = Inr (h', fw')"
    by (simp add: init_listeners_def)
  show ?thesis
    using loop_rewrites [OF l] loop_frame [OF l] by simp
qed

theorem wiring_rewrites_listeners_in_place_witness:
  "(case init_listeners (start_partition todo_heap (start_discovery HelloBlock)) laid_out of
      Inl e \<Rightarrow> False
    | Inr (h', fw') \<Rightarrow>
        listeners (h' 1) = [(''click'', [wired_click1, wired_click2])] \<and>
        items_rewritten (fst laid_out) (listeners (fst laid_out 1)) (listeners (h' 1)))"
proof -
  let ?self = "start_partition todo_heap (start_discovery HelloBlock)"
  from init_listeners_example obtain h' fw' where
    e: "init_listeners ?self laid_out = Inr (h', fw')" and
    l: "listeners (h' 1) = [(''click'', [wired_click1, wired_click2])]"
    by blast
  from e have e': "init_listeners ?self (fst laid_out, snd laid_out) = Inr (h', fw')" by simp
  have "1 \<in> set (wrapped_instances ?self)" by (simp add: todo_discovery)
  with wiring_rewrites_listeners_in_place [OF e']
  have "items_rewritten (fst laid_out) (listeners (fst laid_out 1)) (listeners (h' 1))" by blast
  with e l show ?thesis by simp
qed

subsection \<open>Failures of start\<close>











text \<open>
  C5. For a Block subclass that does not override \<^verbatim>\<open>layout()\<close>, the call
  \<^verbatim>\<open>self.layout()\<close> is the base method, which raises NotImplementedError, and
  \<^verbatim>\<open>start()\<close> fails with that error.
\<close>

theorem start_without_layout_override:
  assumes "layout_override self0 = None"
  shows "start self0 launch_kwargs h = Inl NotImplementedError \<and>
         layout self0 s = Block_layout s \<and> Block_layout s = Inl NotImplementedError"
  using assms
  by (simp add: start_def layout_def Block_layout_def start_partition_def start_discovery_def)

theorem start_without_layout_override_witness:
  "layout_override (Block_init HelloBlock_attrs None []) = None \<and>
   start (Block_init HelloBlock_attrs None []) [(''inbrowser'', PyBool True)] todo_heap =
     Inl NotImplementedError"
proof -
  have h: "layout_override (Block_init HelloBlock_attrs None []) = None"
    by (simp add: Block_init_def)
  from start_without_layout_override [OF h] h show ?thesis by simp
qed

subsection \<open>The load handler\<close>

lemma call_sources_length:
  "call_sources call h xs w = Inr (vs, w') \<Longrightarrow> length vs = length xs"
  by (induction xs arbitrary: w vs) (auto split: option.splits sum.splits prod.splits)

lemma call_value_error:
  "call_value call v w = Inl e \<Longrightarrow> e = TypeError \<or> (\<exists>x. e = Raised x)"
  by (cases v) (auto split: sum.splits)

lemma call_sources_error:
  "call_sources call h xs w = Inl e \<Longrightarrow> e = TypeError \<or> (\<exists>x. e = Raised x)"
  by (induction xs arbitrary: w) (auto split: sum.splits prod.splits dest: call_value_error)

text \<open>
  C9. \<^verbatim>\<open>_load\<close> reads the first element of the list of results without a guard. When
  the load binding of \<^verbatim>\<open>start()\<close> has registered the handler, the list of
  data-source-bearing Wrappers is not empty, and \<^verbatim>\<open>_load\<close> never raises IndexError,
  in any store and any world and whatever the data sources do.
\<close>

theorem load_index_in_range:
  assumes "bind_load self (h, fw) = Inr fw'" and "on_load fw' \<noteq> on_load fw"
  shows "Block_load call self h' w \<noteq> Inl IndexError"
proof -
  from assms have ne: "dyn_reloading_instances self \<noteq> []"
    by (auto simp: bind_load_def split: if_splits)
  show ?thesis
  proof (cases "call_sources call h' (dyn_reloading_instances self) (print ''Reloading'' w)")
    case (Inl e)
    then have "e \<noteq> IndexError" by (auto dest: call_sources_error)
    with Inl show ?thesis by (simp add: Block_load_def)
  next
    case (Inr r)
    obtain vs w' where r: "r = (vs, w')" by (cases r)
    from Inr r have "length vs = length (dyn_reloading_instances self)"
      by (auto dest: call_sources_length)
    with ne have "vs \<noteq> []" by auto
    with Inr r show ?thesis by (auto simp: Block_load_def split: list.splits)
  qed
qed

theorem load_index_in_range_witness:
  "bind_load (start_partition todo_heap (start_discovery HelloBlock)) laid_out =
     Inr (load ''_load'' [markdown_widget] (snd laid_out)) \<and>
   on_load (load ''_load'' [markdown_widget] (snd laid_out)) \<noteq> on_load (snd laid_out) \<and>
   Block_load todo_call (start_partition todo_heap (start_discovery HelloBlock)) todo_heap
     todo_world \<noteq> Inl IndexError"
proof -
  let ?self = "start_partition todo_heap (start_discovery HelloBlock)"
  have g: "gr_object (fst laid_out 2) = Some markdown_widget"
    by (simp add: example_defs)
  have a: "bind_load ?self (fst laid_out, snd laid_out) =
      Inr (load ''_load'' [markdown_widget] (snd laid_out))"
    by (simp add: bind_load_def todo_discovery g del: prod.collapse)
  have b: "on_load (load ''_load'' [markdown_widget] (snd laid_out)) \<noteq> on_load (snd laid_out)"
    by (simp add: load_def)
  from load_index_in_range [OF a b, of todo_call todo_heap todo_world] a b
  show ?thesis by simp
qed




subsection \<open>Discovery\<close>

lemma discover_filter:
  "discover xs acc = acc @ map the_Wrapper (filter is_Wrapper (map snd xs))"
  by (induction xs acc rule: discover.induct) simp_all

lemma truthy_function_or_None:
  "v = PyNone \<or> (\<exists>f. v = PyFn f) \<Longrightarrow> truthy v \<longleftrightarrow> v \<noteq> PyNone"
  by auto

text \<open>
  C3, as amended. The discovery step collects exactly the attribute values that are
  Wrapper instances, in the order the attributes are enumerated (the result is a function
  of that enumeration). The partition step keeps exactly the members whose data source
  is true, in the same order, and leaves the discovered list as it is; None is false and
  a function is true, so that when every data source is None or a function the members
  kept are exactly those whose data source is not None.
\<close>

theorem discovery_and_source_partition:
  "map WrapperInst (wrapped_instances (start_discovery self)) =
     filter is_Wrapper (map snd (attrs self)) \<and>
   dyn_reloading_instances (start_partition h (start_discovery self)) =
     filter (\<lambda>a. truthy (priv_source (h a))) (wrapped_instances (start_discovery self)) \<and>
   wrapped_instances (start_partition h (start_discovery self)) =
     wrapped_instances (start_discovery self) \<and>
   truthy PyNone = False \<and> truthy (PyFn f) = True \<and>
   ((\<forall>a \<in> set (wrapped_instances (start_discovery self)).
        priv_source (h a) = PyNone \<or> (\<exists>f. priv_source (h a) = PyFn f)) \<longrightarrow>
    dyn_reloading_instances (start_partition h (start_discovery self)) =
      filter (\<lambda>a. priv_source (h a) \<noteq> PyNone) (wrapped_instances (start_discovery self)))"
proof -
  have "map WrapperInst (map the_Wrapper (filter is_Wrapper ys)) = filter is_Wrapper ys" for ys
    by (induction ys) auto
  moreover have "filter (\<lambda>a. truthy (priv_source (h a))) ws =
      filter (\<lambda>a. priv_source (h a) \<noteq> PyNone) ws"
    if "\<forall>a \<in> set ws. priv_source (h a) = PyNone \<or> (\<exists>f. priv_source (h a) = PyFn f)" for ws
    using that by (intro filter_cong) (auto simp: truthy_function_or_None)
  ultimately show ?thesis
    by (simp add: start_discovery_def start_partition_def discover_filter)
qed

theorem discovery_and_source_partition_witness:
  "map WrapperInst (wrapped_instances (start_discovery HelloBlock)) =
     [WrapperInst 1, WrapperInst 2, WrapperInst 0] \<and>
   dyn_reloading_instances (start_partition todo_heap (start_discovery HelloBlock)) = [2] \<and>
   filter (\<lambda>a. priv_source (todo_heap a) \<noteq> PyNone) [1, 2, 0] = [2]"
  using discovery_and_source_partition [of HelloBlock todo_heap]
  by (simp add: block_defs example_defs)

text \<open>
  C3 as stated fails for a data source that is not None but false: the markdown display
  of \<open>empty_feed_heap\<close> is discovered, has a data source, and is not selected.
\<close>

theorem falsy_source_counterexample:
  "priv_source (empty_feed_heap 2) \<noteq> PyNone \<and>
   2 \<in> set (wrapped_instances (start_discovery HelloBlock)) \<and>
   2 \<notin> set (dyn_reloading_instances
     (start_partition empty_feed_heap (start_discovery HelloBlock)))"
  by (simp add: block_defs example_defs empty_feed_heap_def)

subsection \<open>Wrapper attributes\<close>

text \<open>
  C6. Accessing on a Wrapper a name that is neither an event name of the wrapped widget
  class nor an attribute the Wrapper has fails with AttributeError.
\<close>

theorem unknown_attribute_fails:
  assumes "name \<notin> set (EVENTS (gr_object_cls (h self)))"
    and "name \<notin> set (Wrapper_attrs (h self))"
  shows "Wrapper_getattr self name h = Inl AttributeError"
  using assms by (simp add: Wrapper_getattr_def Wrapper_getattr_hook_def)

theorem unknown_attribute_fails_witness:
  "''clik'' \<notin> set (EVENTS (gr_object_cls (todo_heap 1))) \<and>
   ''clik'' \<notin> set (Wrapper_attrs (todo_heap 1)) \<and>
   Wrapper_getattr 1 ''clik'' todo_heap = Inl AttributeError"
proof -
  have a: "''clik'' \<notin> set (EVENTS (gr_object_cls (todo_heap 1)))"
    by (simp add: example_defs)
  have b: "''clik'' \<notin> set (Wrapper_attrs (todo_heap 1))"
    by (simp add: example_defs Wrapper_attrs_def object_attrs_def)
  from unknown_attribute_fails [of "''clik''" todo_heap 1, OF a b] a b show ?thesis by simp
qed

lemma listeners_for_setdefault_append:
  "listeners_for (setdefault_append E kw d) E' =
     (if E' = E then listeners_for d E @ [kw] else listeners_for d E')"
  by (induction d) auto

text \<open>
  C4, as amended. For an event name \<open>E\<close> of the wrapped widget class that is not the name
  of an attribute the Wrapper already has, accessing \<open>E\<close> on the Wrapper returns the
  binder for \<open>E\<close>. A call of that binder appends its keyword arguments as one record at
  the end of the Wrapper's listener list for \<open>E\<close>, leaves the list of every other event
  and every other field and Wrapper unchanged, and two calls leave their records in
  call order.
\<close>

theorem binder_appends_in_declaration_order:
  assumes "E \<in> set (EVENTS (gr_object_cls (h self)))"
    and "E \<notin> set (Wrapper_attrs (h self))"
  shows "Wrapper_getattr self E h = Inr (Binder self E) \<and>
         listeners_for (listeners (bind_closure self E kw h self)) E =
           listeners_for (listeners (h self)) E @ [kw] \<and>
         (\<forall>E'. E' \<noteq> E \<longrightarrow>
            listeners_for (listeners (bind_closure self E kw h self)) E' =
              listeners_for (listeners (h self)) E') \<and>
         listeners_for (listeners (bind_closure self E kw' (bind_closure self E kw h) self)) E =
           listeners_for (listeners (h self)) E @ [kw, kw'] \<and>
         (\<forall>a. bind_closure self E kw h a =
            (if a = self then (h a)\<lparr>listeners := listeners (bind_closure self E kw h a)\<rparr> else h a))"
  using assms
  by (simp add: Wrapper_getattr_def Wrapper_getattr_hook_def bind_factory_def bind_closure_def
      listeners_for_setdefault_append)

theorem binder_appends_in_declaration_order_witness:
  "''click'' \<in> set (EVENTS (gr_object_cls (declared 1))) \<and>
   ''click'' \<notin> set (Wrapper_attrs (declared 1)) \<and>
   Wrapper_getattr 1 ''click'' declared = Inr (Binder 1 ''click'') \<and>
   listeners_for (listeners (bind_closure 1 ''click'' click2
     (bind_closure 1 ''click'' click1 declared) 1)) ''click'' = [click1, click2]"
proof -
  have a: "''click'' \<in> set (EVENTS (gr_object_cls (declared 1)))"
    by (simp add: example_defs)
  have b: "''click'' \<notin> set (Wrapper_attrs (declared 1))"
    by (simp add: example_defs Wrapper_attrs_def object_attrs_def)
  have c: "listeners_for (listeners (declared 1)) ''click'' = []"
    by (simp add: example_defs)
  from binder_appends_in_declaration_order [of "''click''" declared 1 click1 click2, OF a b] a b c
  show ?thesis by simp
qed

text \<open>
  C4 as stated fails for an event name that ordinary lookup already answers: on a Wrapper
  of a widget class with an event called \<^verbatim>\<open>source\<close>, the attribute \<^verbatim>\<open>source\<close> is the
  Wrapper's own method, not a binder.
\<close>

theorem shadowed_event_name_counterexample:
  "''source'' \<in> set (EVENTS (gr_object_cls (picker_heap 3))) \<and>
   Wrapper_getattr 3 ''source'' picker_heap = Inr (Existing ''source'') \<and>
   Wrapper_getattr 3 ''source'' picker_heap \<noteq> Inr (Binder 3 ''source'')"
  by (simp add: picker_heap_def Picker_def Wrapper_init_def Wrapper_getattr_def Wrapper_attrs_def)

text \<open>
  C8. Calling \<^verbatim>\<open>source(f)\<close> and then \<^verbatim>\<open>source(g)\<close> on a Wrapper leaves the store as
  one call \<^verbatim>\<open>source(g)\<close> would: the data source is \<open>g\<close>, every other field of the
  Wrapper and every other Wrapper is as before, and no error is raised (the method
  has no failing branch).
\<close>

theorem source_last_write_wins:
  "source self g (source self f h) = h(self := (h self)\<lparr>priv_source := g\<rparr>) \<and>
   priv_source (source self g (source self f h) self) = g"
  by (simp add: source_def)

end
